theory Spec2Isabelle
  imports Complex_Main "HOL-Library.Word"
begin

section \<open>Data model of the SecurePasswordGenerator component\<close>

text \<open>
  A JavaScript string is a sequence of UTF-16 code units. Every character of the
  component's character sets lies in the Basic Multilingual Plane, so one character is
  one code unit, here its numeric value. The elements of a \<open>Uint8Array\<close> are bytes.
\<close>

type_synonym jschar = nat
type_synonym jsstring = "jschar list"
type_synonym byte = "8 word"

definition str :: "string \<Rightarrow> jsstring" where
  "str s = map of_char s"

text \<open>The \<open>options\<close> object (source lines 31-38).\<close>

record charset_options =
  lowercase :: bool
  uppercase :: bool
  numbers :: bool
  symbols :: bool
  ambiguous :: bool
  extendedAscii :: bool

text \<open>The component's \<open>useState\<close> cells (source lines 20-38).\<close>

record state =
  password :: jsstring
  passwordLength :: nat
  entropy :: int
  passwordHistory :: "jsstring list"
  showPasswordHistory :: bool
  copied :: bool
  strengthLevel :: nat
  animateStrength :: bool
  options :: charset_options

definition initial_options :: charset_options where
  "initial_options =
     \<lparr>lowercase = True, uppercase = True, numbers = True, symbols = True,
      ambiguous = False, extendedAscii = False\<rparr>"

definition initial_state :: state where
  "initial_state =
     \<lparr>password = [], passwordLength = 16, entropy = 0, passwordHistory = [],
      showPasswordHistory = False, copied = False, strengthLevel = 0,
      animateStrength = False, options = initial_options\<rparr>"

subsection \<open>Character sets (source lines 41-48)\<close>

definition charSets_lowercase :: jsstring where
  "charSets_lowercase = str ''abcdefghijklmnopqrstuvwxyz''"

definition charSets_uppercase :: jsstring where
  "charSets_uppercase = str ''ABCDEFGHIJKLMNOPQRSTUVWXYZ''"

definition charSets_numbers :: jsstring where
  "charSets_numbers = str ''0123456789''"

text \<open>
  The symbols literal ends with a backquote, a double quote, an escaped single quote
  and an escaped backslash: code units 96, 34, 39 and 92.
\<close>

definition charSets_symbols :: jsstring where
  "charSets_symbols = str ''!@#$%^&*()-_=+[]{}|;:,.<>?/~'' @ [96, 34, 39, 92]"

definition charSets_ambiguous :: jsstring where
  "charSets_ambiguous = str ''Il1O0''"

text \<open>
  The extended set, by code point: euro sign (U+20AC), pound, yen, cent, section,
  copyright, registered, trade mark (U+2122), inverted question and exclamation marks,
  then the Latin-1 letters from U+00C0 to U+00FF without the multiplication sign
  (U+00D7) and the division sign (U+00F7).
\<close>

definition charSets_extendedAscii :: jsstring where
  "charSets_extendedAscii =
     [0x20AC, 0xA3, 0xA5, 0xA2, 0xA7, 0xA9, 0xAE, 0x2122, 0xBF, 0xA1,
      0xC0, 0xC1, 0xC2, 0xC3, 0xC4, 0xC5, 0xC6, 0xC7,
      0xC8, 0xC9, 0xCA, 0xCB, 0xCC, 0xCD, 0xCE, 0xCF,
      0xD0, 0xD1, 0xD2, 0xD3, 0xD4, 0xD5, 0xD6, 0xD8,
      0xD9, 0xDA, 0xDB, 0xDC, 0xDD, 0xDE, 0xDF, 0xE0,
      0xE1, 0xE2, 0xE3, 0xE4, 0xE5, 0xE6, 0xE7, 0xE8,
      0xE9, 0xEA, 0xEB, 0xEC, 0xED, 0xEE, 0xEF, 0xF0,
      0xF1, 0xF2, 0xF3, 0xF4, 0xF5, 0xF6, 0xF8, 0xF9,
      0xFA, 0xFB, 0xFC, 0xFD, 0xFE, 0xFF]"

section \<open>Operations\<close>

subsection \<open>Random bytes (source lines 55-59)\<close>

text \<open>
  \<open>window.crypto.getRandomValues\<close> is the environment. A random source is the
  sequence of bytes it is going to deliver, and a cursor says how many have been
  handed out; \<open>getSecureRandomValues\<close> returns the next \<open>n\<close> of them.
\<close>

type_synonym random_source = "nat \<Rightarrow> byte"

definition getSecureRandomValues :: "random_source \<Rightarrow> nat \<Rightarrow> nat \<Rightarrow> byte list" where
  "getSecureRandomValues rnd pos n = map rnd [pos..<pos + n]"

subsection \<open>Entropy and strength (source lines 67-84)\<close>

text \<open>
  JavaScript numbers are modelled as reals: \<open>Math.log\<close> is the natural logarithm
  and \<open>Math.round\<close> rounds halves upwards, which is \<^const>\<open>round\<close>.
\<close>

definition calculateEntropy :: "jsstring \<Rightarrow> nat \<Rightarrow> real" where
  "calculateEntropy charset len =
     (let charsetSize = length charset
      in real len * (ln (real charsetSize) / ln 2))"

definition getStrengthLevel :: "real \<Rightarrow> nat" where
  "getStrengthLevel entropyValue =
     (if entropyValue < 45 then 0
      else if entropyValue < 60 then 1
      else if entropyValue < 80 then 2
      else if entropyValue < 100 then 3
      else 4)"

subsection \<open>Building the character set (source lines 92-105)\<close>

definition buildCharset :: "charset_options \<Rightarrow> jsstring" where
  "buildCharset opts =
     (let charset = [];
          charset = (if lowercase opts then charset @ charSets_lowercase else charset);
          charset = (if uppercase opts then charset @ charSets_uppercase else charset);
          charset = (if numbers opts then charset @ charSets_numbers else charset);
          charset = (if symbols opts then charset @ charSets_symbols else charset);
          charset = (if extendedAscii opts then charset @ charSets_extendedAscii else charset)
      in if \<not> ambiguous opts
         then filter (\<lambda>char. char \<notin> set charSets_ambiguous) charset
         else charset)"

subsection \<open>Mapping random bytes to characters (source lines 116-138)\<close>

definition maxValidValue :: "jsstring \<Rightarrow> nat" where
  "maxValidValue charset = 256 - 256 mod length charset"

text \<open>
  The \<open>for\<close> loop over the batch of \<open>passwordLength * 2\<close> bytes: it stops at the end
  of the batch or when the password is complete, whichever comes first.
\<close>

fun for_loop :: "jsstring \<Rightarrow> nat \<Rightarrow> byte list \<Rightarrow> jsstring \<Rightarrow> jsstring" where
  "for_loop charset len [] newPassword = newPassword"
| "for_loop charset len (randomValue # randomBytes) newPassword =
     (if length newPassword < len then
        (if unat randomValue < maxValidValue charset
         then for_loop charset len randomBytes
                (newPassword @ [charset ! (unat randomValue mod length charset)])
         else for_loop charset len randomBytes newPassword)
      else newPassword)"

text \<open>
  The \<open>while\<close> loop draws one byte at a time until the password is complete. Nothing
  bounds the number of rejected bytes, so the loop need not return: \<open>None\<close> is the
  run that never ends.
\<close>

partial_function (option) while_loop ::
  "jsstring \<Rightarrow> nat \<Rightarrow> random_source \<Rightarrow> nat \<Rightarrow> jsstring \<Rightarrow> jsstring option" where
  "while_loop charset len rnd pos newPassword =
     (if length newPassword < len then
        (if unat (hd (getSecureRandomValues rnd pos 1)) < 256 - 256 mod length charset
         then while_loop charset len rnd (pos + 1)
                (newPassword @
                   [charset ! (unat (hd (getSecureRandomValues rnd pos 1)) mod length charset)])
         else while_loop charset len rnd (pos + 1) newPassword)
      else Some newPassword)"

declare while_loop.simps [code]

definition assemble :: "jsstring \<Rightarrow> nat \<Rightarrow> random_source \<Rightarrow> jsstring option" where
  "assemble charset len rnd =
     (let randomBytes = getSecureRandomValues rnd 0 (len * 2);
          newPassword = for_loop charset len randomBytes []
      in while_loop charset len rnd (len * 2) newPassword)"

subsection \<open>generatePassword (source lines 90-160)\<close>

text \<open>
  The function reads \<open>options\<close> and \<open>passwordLength\<close> from the state and writes the
  other cells. The 500 ms timer that resets \<open>animateStrength\<close> is not part of the call.
\<close>

definition generatePassword :: "random_source \<Rightarrow> state \<Rightarrow> state option" where
  "generatePassword rnd st =
     (let charset = buildCharset (options st) in
      if length charset = 0 then
        Some (st\<lparr>password := str ''Please select at least one character set'',
                 entropy := 0, strengthLevel := 0\<rparr>)
      else
        (case assemble charset (passwordLength st) rnd of
           None \<Rightarrow> None
         | Some newPassword \<Rightarrow>
             (let entropyValue = calculateEntropy charset (passwordLength st);
                  newStrengthLevel = getStrengthLevel entropyValue
              in Some (st\<lparr>password := newPassword,
                          entropy := round entropyValue,
                          strengthLevel := newStrengthLevel,
                          animateStrength := True,
                          passwordHistory := newPassword # take 4 (passwordHistory st),
                          copied := False\<rparr>))))"

subsection \<open>Presentation of the strength (source lines 215-240)\<close>

definition labels :: "string list" where
  "labels = [''Very Weak'', ''Weak'', ''Medium'', ''Strong'', ''Very Strong'']"

definition getStrengthLabel :: "state \<Rightarrow> string option" where
  "getStrengthLabel st =
     (if strengthLevel st < length labels then Some (labels ! strengthLevel st) else None)"

text \<open>
  A template literal renders a non-negative integral number in decimal digits.
\<close>

fun decimal :: "nat \<Rightarrow> string" where
  "decimal n =
     (if n < 10 then [''0123456789'' ! n]
      else decimal (n div 10) @ [''0123456789'' ! (n mod 10)])"

definition getCrackTimeEstimation :: "state \<Rightarrow> string" where
  "getCrackTimeEstimation st =
     (let guessesPerSecond = 10000000000;
          possibleCombinations = 2 powr real_of_int (entropy st);
          seconds = possibleCombinations / guessesPerSecond / 2
      in if seconds < 1 then ''Instantly''
         else if seconds < 60 then decimal (nat (round seconds)) @ '' seconds''
         else if seconds < 3600 then decimal (nat (round (seconds / 60))) @ '' minutes''
         else if seconds < 86400 then decimal (nat (round (seconds / 3600))) @ '' hours''
         else if seconds < 31536000 then decimal (nat (round (seconds / 86400))) @ '' days''
         else if seconds < 31536000 * 100
           then decimal (nat (round (seconds / 31536000))) @ '' years''
         else ''Millions of years'')"

declare decimal.simps [simp del]

subsection \<open>The length slider (source lines 305-312)\<close>

text \<open>
  \<open>generatePassword\<close> takes no argument: it reads \<open>passwordLength\<close>, and the only
  writer of that cell is the \<open>onChange\<close> handler of the range input, which stores
  \<open>parseInt\<close> of the input's value. The input has \<open>min="8"\<close>, \<open>max="64"\<close> and the
  default step 1, so whatever position is asked of it, the value it holds is a whole
  number between the two bounds: the lower bound for a request below it, the upper
  bound for a request above it.
\<close>

definition slider_min :: nat where
  "slider_min = 8"

definition slider_max :: nat where
  "slider_max = 64"

definition range_input_value :: "int \<Rightarrow> nat" where
  "range_input_value requested =
     nat (max (int slider_min) (min (int slider_max) requested))"

definition passwordLength_onChange :: "int \<Rightarrow> state \<Rightarrow> state" where
  "passwordLength_onChange requested st =
     st\<lparr>passwordLength := range_input_value requested\<rparr>"

subsection \<open>Successive generations\<close>

text \<open>
  The component calls \<open>generatePassword\<close> again and again on its own state (on the
  first render, on the button, and whenever the options or the length change). A
  request gives the options and the length in force at a call, set through
  \<open>handleOptionChange\<close> and the slider, and the bytes the random source delivers to it.
  \<open>setPasswordHistory\<close> is called nowhere else.
\<close>

fun generations :: "(charset_options \<times> nat \<times> random_source) list \<Rightarrow> state \<Rightarrow> state option" where
  "generations [] st = Some st"
| "generations ((opts, len, rnd) # requests) st =
     (case generatePassword rnd (st\<lparr>options := opts, passwordLength := len\<rparr>) of
        None \<Rightarrow> None
      | Some st' \<Rightarrow> generations requests st')"

subsection \<open>Concrete inputs\<close>

text \<open>
  Two byte sequences a random source may deliver: bytes counting down from 255, and
  the same byte \<open>k\<close> over and over.
\<close>

definition countdown_source :: random_source where
  "countdown_source i = of_nat (255 - i)"

definition constant_source :: "nat \<Rightarrow> random_source" where
  "constant_source k i = of_nat k"

definition lowercase_only :: charset_options where
  "lowercase_only =
     \<lparr>lowercase = True, uppercase = False, numbers = False, symbols = False,
      ambiguous = False, extendedAscii = False\<rparr>"

definition length8_state :: state where
  "length8_state = initial_state\<lparr>passwordLength := 8\<rparr>"

definition all_classes :: charset_options where
  "all_classes =
     \<lparr>lowercase = True, uppercase = True, numbers = True, symbols = True,
      ambiguous = True, extendedAscii = True\<rparr>"

definition no_classes :: charset_options where
  "no_classes =
     \<lparr>lowercase = False, uppercase = False, numbers = False, symbols = False,
      ambiguous = False, extendedAscii = False\<rparr>"

definition five_requests :: "(charset_options \<times> nat \<times> random_source) list" where
  "five_requests =
     [(lowercase_only, 8, constant_source 0), (lowercase_only, 8, constant_source 1),
      (lowercase_only, 8, constant_source 2), (lowercase_only, 8, constant_source 3),
      (lowercase_only, 8, constant_source 4)]"

definition uppercase_only :: charset_options where
  "uppercase_only =
     \<lparr>lowercase = False, uppercase = True, numbers = False, symbols = False,
      ambiguous = False, extendedAscii = False\<rparr>"

definition upper_digits_symbols :: charset_options where
  "upper_digits_symbols =
     \<lparr>lowercase = False, uppercase = True, numbers = True, symbols = True,
      ambiguous = False, extendedAscii = False\<rparr>"

definition lowercase8_state :: state where
  "lowercase8_state = length8_state\<lparr>options := lowercase_only\<rparr>"

definition uppercase8_state :: state where
  "uppercase8_state = length8_state\<lparr>options := uppercase_only\<rparr>"

section \<open>The sampling loops\<close>

text \<open>
  Both loops keep the bytes below the threshold, in order, map each to the character at
  its residue, and stop as soon as the password has the requested length.
\<close>

lemma for_loop_take_filter:
  "for_loop cs L bs pw =
     pw @ map (\<lambda>b. cs ! (unat b mod length cs))
            (take (L - length pw) (filter (\<lambda>b. unat b < 256 - 256 mod length cs) bs))"
proof (induction bs arbitrary: pw)
  case Nil
  then show ?case by simp
next
  case (Cons b bs)
  show ?case
  proof (cases "length pw < L")
    case False
    then show ?thesis by simp
  next
    case True
    then obtain k where k: "L - length pw = Suc k" by (cases "L - length pw") auto
    with True have k': "L - Suc (length pw) = k" by simp
    show ?thesis using True k k' by (simp add: Cons.IH maxValidValue_def)
  qed
qed

lemma while_loop_take_filter:
  "L - length pw \<le> length (filter (\<lambda>b. unat b < 256 - 256 mod length cs) (map rnd [pos..<pos + n]))
   \<Longrightarrow> while_loop cs L rnd pos pw =
     Some (pw @ map (\<lambda>b. cs ! (unat b mod length cs))
            (take (L - length pw) (filter (\<lambda>b. unat b < 256 - 256 mod length cs) (map rnd [pos..<pos + n]))))"
proof (induction n arbitrary: pos pw)
  case 0
  then have "\<not> length pw < L" by simp
  then show ?case by (subst while_loop.simps) simp
next
  case (Suc n)
  show ?case
  proof (cases "length pw < L")
    case False
    then show ?thesis by (subst while_loop.simps) simp
  next
    case True
    then obtain k where k: "L - length pw = Suc k" by (cases "L - length pw") auto
    with True have k': "L - Suc (length pw) = k" by simp
    have upt: "[pos..<pos + Suc n] = pos # [pos + 1..<(pos + 1) + n]"
      by (simp add: upt_rec)
    show ?thesis
    proof (cases "unat (rnd pos) < 256 - 256 mod length cs")
      case acc: True
      from Suc.prems acc k have "L - length (pw @ [cs ! (unat (rnd pos) mod length cs)]) \<le>
          length (filter (\<lambda>b. unat b < 256 - 256 mod length cs) (map rnd [pos + 1..<(pos + 1) + n]))"
        unfolding upt by simp
      from Suc.IH [OF this] show ?thesis
        using True acc k k' unfolding upt
        by (subst while_loop.simps) (simp add: getSecureRandomValues_def)
    next
      case rej: False
      from Suc.prems rej have "L - length pw \<le>
          length (filter (\<lambda>b. unat b < 256 - 256 mod length cs) (map rnd [pos + 1..<(pos + 1) + n]))"
        unfolding upt by simp
      from Suc.IH [OF this] show ?thesis
        using True rej unfolding upt
        by (subst while_loop.simps) (simp add: getSecureRandomValues_def)
    qed
  qed
qed

lemma assemble_ge:
  assumes "L \<le> length (filter (\<lambda>b. unat b < 256 - 256 mod length cs) (map rnd [0..<L * 2 + k]))"
  shows "assemble cs L rnd =
     Some (map (\<lambda>b. cs ! (unat b mod length cs))
            (take L (filter (\<lambda>b. unat b < 256 - 256 mod length cs) (map rnd [0..<L * 2 + k]))))"
proof -
  let ?acc = "\<lambda>b. unat b < 256 - 256 mod length cs"
  let ?pick = "\<lambda>b. cs ! (unat b mod length cs)"
  let ?batch = "filter ?acc (map rnd [0..<L * 2])"
  let ?rest = "filter ?acc (map rnd [L * 2..<L * 2 + k])"
  have split: "filter ?acc (map rnd [0..<L * 2 + k]) = ?batch @ ?rest"
    by (simp add: upt_add_eq_append [of 0 "L * 2" k])
  have pw: "for_loop cs L (getSecureRandomValues rnd 0 (L * 2)) [] = map ?pick (take L ?batch)"
    by (simp add: for_loop_take_filter getSecureRandomValues_def)
  have len: "L - length (map ?pick (take L ?batch)) = L - length ?batch"
    by simp
  from assms have "L - length (map ?pick (take L ?batch)) \<le> length ?rest"
    unfolding split by simp
  from while_loop_take_filter [OF this]
  have "while_loop cs L rnd (L * 2) (map ?pick (take L ?batch)) =
        Some (map ?pick (take L ?batch) @ map ?pick (take (L - length ?batch) ?rest))"
    unfolding len .
  then show ?thesis
    unfolding split by (simp add: assemble_def pw)
qed

lemma assemble_take_filter:
  assumes "L \<le> length (filter (\<lambda>b. unat b < 256 - 256 mod length cs) (map rnd [0..<n]))"
  shows "assemble cs L rnd =
     Some (map (\<lambda>b. cs ! (unat b mod length cs))
            (take L (filter (\<lambda>b. unat b < 256 - 256 mod length cs) (map rnd [0..<n]))))"
proof -
  let ?acc = "\<lambda>b. unat b < 256 - 256 mod length cs"
  obtain k where k: "n + L * 2 = L * 2 + k" by (intro that [of n]) simp
  have split: "filter ?acc (map rnd [0..<n + L * 2]) =
      filter ?acc (map rnd [0..<n]) @ filter ?acc (map rnd [n..<n + L * 2])"
    by (simp add: upt_add_eq_append [of 0 n "L * 2"])
  from assms have "L \<le> length (filter ?acc (map rnd [0..<L * 2 + k]))"
    unfolding k [symmetric] split by simp
  from assemble_ge [OF this] show ?thesis
    unfolding k [symmetric] split using assms by simp
qed

section \<open>Rejection sampling\<close>

text \<open>
  Claim C1. For a pool \<open>cs\<close> of size \<open>N \<ge> 1\<close>, generation accepts a byte \<open>b\<close> exactly
  when \<open>b < 256 - 256 mod N\<close>: the password assembled from the random source is the
  first \<open>L\<close> accepted bytes of the source, in order, each replaced by the pool character
  at index \<open>b mod N\<close>, which is an index below \<open>N\<close>. A rejected byte leaves no trace in
  the password, and the next byte of the source is looked at in its place. The source
  must deliver \<open>L\<close> accepted bytes among its first \<open>n\<close>, for some \<open>n\<close>.
\<close>

theorem rejection_sampling:
  assumes "1 \<le> length cs"
    and "L \<le> length (filter (\<lambda>b. unat b < 256 - 256 mod length cs) (map rnd [0..<n]))"
  shows "assemble cs L rnd =
           Some (map (\<lambda>b. cs ! (unat b mod length cs))
                  (take L (filter (\<lambda>b. unat b < 256 - 256 mod length cs) (map rnd [0..<n]))))
         \<and> (\<forall>b :: byte. unat b mod length cs < length cs)"
proof (intro conjI)
  show "assemble cs L rnd =
           Some (map (\<lambda>b. cs ! (unat b mod length cs))
                  (take L (filter (\<lambda>b. unat b < 256 - 256 mod length cs) (map rnd [0..<n]))))"
    by (rule assemble_take_filter [OF assms(2)])
  from assms(1) have "0 < length cs" by (cases cs) simp_all
  then show "\<forall>b :: byte. unat b mod length cs < length cs" by simp
qed

theorem rejection_sampling_witness:
  "1 \<le> length (buildCharset lowercase_only) \<and>
   3 \<le> length (filter (\<lambda>b. unat b < 256 - 256 mod length (buildCharset lowercase_only))
             (map countdown_source [0..<9])) \<and>
   map countdown_source [0..<9] = [255, 254, 253, 252, 251, 250, 249, 248, 247] \<and>
   assemble (buildCharset lowercase_only) 3 countdown_source = Some (str ''zyx'')"
proof -
  have h1: "1 \<le> length (buildCharset lowercase_only)"
    by code_simp
  have h2: "3 \<le> length (filter (\<lambda>b. unat b < 256 - 256 mod length (buildCharset lowercase_only))
             (map countdown_source [0..<9]))"
    by code_simp
  have bytes: "map countdown_source [0..<9] = [255, 254, 253, 252, 251, 250, 249, 248, 247]"
    by code_simp
  have v: "map (\<lambda>b. buildCharset lowercase_only ! (unat b mod length (buildCharset lowercase_only)))
             (take 3 (filter (\<lambda>b. unat b < 256 - 256 mod length (buildCharset lowercase_only))
                (map countdown_source [0..<9])))
      = str ''zyx''"
    by code_simp
  from rejection_sampling [OF h1 h2] have "assemble (buildCharset lowercase_only) 3 countdown_source = Some (str ''zyx'')"
    unfolding v by simp
  with h1 h2 bytes show ?thesis by simp
qed

section \<open>Length and membership of the generated password\<close>

text \<open>
  Claim C2. When the pool built from the options is not empty and the random source
  delivers at least \<open>passwordLength\<close> accepted bytes, \<open>generatePassword\<close> returns, the
  password it stores has exactly \<open>passwordLength\<close> characters, and each of them is a
  character of the pool.
\<close>

theorem generate_length_and_members:
  assumes "buildCharset (options st) \<noteq> []"
    and "passwordLength st \<le>
           length (filter (\<lambda>b. unat b < 256 - 256 mod length (buildCharset (options st)))
                     (map rnd [0..<n]))"
  shows "\<exists>st'. generatePassword rnd st = Some st' \<and>
           length (password st') = passwordLength st \<and>
           set (password st') \<subseteq> set (buildCharset (options st))"
proof -
  let ?cs = "buildCharset (options st)"
  let ?pw = "map (\<lambda>b. ?cs ! (unat b mod length ?cs))
               (take (passwordLength st)
                  (filter (\<lambda>b. unat b < 256 - 256 mod length ?cs) (map rnd [0..<n])))"
  have a: "assemble ?cs (passwordLength st) rnd = Some ?pw"
    by (rule assemble_take_filter [OF assms(2)])
  have len: "length ?pw = passwordLength st"
    using assms(2) by simp
  from assms(1) have pos: "0 < length ?cs" by simp
  have mem: "set ?pw \<subseteq> set ?cs"
  proof
    fix c assume "c \<in> set ?pw"
    then obtain b :: byte where "c = ?cs ! (unat b mod length ?cs)" by auto
    with pos show "c \<in> set ?cs" by simp
  qed
  have "\<exists>st'. generatePassword rnd st = Some st' \<and> password st' = ?pw"
    using assms(1) a by (simp add: generatePassword_def Let_def)
  with len mem show ?thesis by metis
qed

theorem generate_length_and_members_witness:
  "buildCharset (options length8_state) \<noteq> [] \<and>
   passwordLength length8_state \<le>
     length (filter (\<lambda>b. unat b < 256 - 256 mod length (buildCharset (options length8_state)))
               (map countdown_source [0..<86])) \<and>
   (\<exists>st'. generatePassword countdown_source length8_state = Some st' \<and>
      length (password st') = 8 \<and>
      set (password st') \<subseteq> set (buildCharset (options length8_state)))"
proof -
  have h1: "buildCharset (options length8_state) \<noteq> []"
    by code_simp
  have h2: "passwordLength length8_state \<le>
     length (filter (\<lambda>b. unat b < 256 - 256 mod length (buildCharset (options length8_state)))
               (map countdown_source [0..<86]))"
    by code_simp
  have len: "passwordLength length8_state = 8"
    by (simp add: length8_state_def)
  from generate_length_and_members [OF h1 h2] h1 h2 show ?thesis
    unfolding len by simp
qed

section \<open>The character pool\<close>

text \<open>
  The five classes have no character in common and none repeats a character, so every
  selection of them, filtered or not, is a list without repetition.
\<close>

lemma charSets_distinct:
  "distinct (charSets_lowercase @ charSets_uppercase @ charSets_numbers @
             charSets_symbols @ charSets_extendedAscii)"
  by (simp add: charSets_lowercase_def charSets_uppercase_def charSets_numbers_def
      charSets_symbols_def charSets_extendedAscii_def str_def)

lemma buildCharset_selection:
  "buildCharset opts =
     (let charset = (if lowercase opts then charSets_lowercase else []) @
                    (if uppercase opts then charSets_uppercase else []) @
                    (if numbers opts then charSets_numbers else []) @
                    (if symbols opts then charSets_symbols else []) @
                    (if extendedAscii opts then charSets_extendedAscii else [])
      in if ambiguous opts then charset
         else filter (\<lambda>char. char \<notin> set charSets_ambiguous) charset)"
  by (simp add: buildCharset_def)

lemma selection_distinct:
  "distinct ((if a then charSets_lowercase else []) @
             (if b then charSets_uppercase else []) @
             (if c then charSets_numbers else []) @
             (if d then charSets_symbols else []) @
             (if e then charSets_extendedAscii else []))"
  using charSets_distinct by (cases a; cases b; cases c; cases d; cases e) auto

lemma buildCharset_distinct: "distinct (buildCharset opts)"
  unfolding buildCharset_selection Let_def
  by (cases "ambiguous opts") (simp_all only: if_True if_False selection_distinct distinct_filter)

lemma initial_pool:
  "buildCharset initial_options =
     str ''abcdefghijkmnopqrstuvwxyzABCDEFGHJKLMNPQRSTUVWXYZ23456789!@#$%^&*()-_=+[]{}|;:,.<>?/~'' @
     [96, 34, 39, 92]"
  by (simp add: buildCharset_def initial_options_def charSets_lowercase_def
      charSets_uppercase_def charSets_numbers_def charSets_symbols_def charSets_ambiguous_def
      str_def)

text \<open>
  Claim C4. When the \<open>ambiguous\<close> option is off, the pool contains none of the
  characters \<open>I\<close>, \<open>l\<close>, \<open>1\<close>, \<open>O\<close>, \<open>0\<close>. When it is on, the pool contains each of
  these characters that belongs to a class whose option is on.
\<close>

theorem ambiguous_filter:
  "(\<not> ambiguous opts \<longrightarrow> set (buildCharset opts) \<inter> set (str ''Il1O0'') = {}) \<and>
   (ambiguous opts \<longrightarrow>
      (\<forall>c \<in> set (str ''Il1O0'').
         (lowercase opts \<and> c \<in> set charSets_lowercase) \<or>
         (uppercase opts \<and> c \<in> set charSets_uppercase) \<or>
         (numbers opts \<and> c \<in> set charSets_numbers) \<or>
         (symbols opts \<and> c \<in> set charSets_symbols) \<or>
         (extendedAscii opts \<and> c \<in> set charSets_extendedAscii)
         \<longrightarrow> c \<in> set (buildCharset opts)))"
proof (intro conjI impI ballI)
  assume "\<not> ambiguous opts"
  then show "set (buildCharset opts) \<inter> set (str ''Il1O0'') = {}"
    unfolding buildCharset_selection Let_def charSets_ambiguous_def by auto
next
  fix c
  assume "ambiguous opts"
    and "(lowercase opts \<and> c \<in> set charSets_lowercase) \<or>
         (uppercase opts \<and> c \<in> set charSets_uppercase) \<or>
         (numbers opts \<and> c \<in> set charSets_numbers) \<or>
         (symbols opts \<and> c \<in> set charSets_symbols) \<or>
         (extendedAscii opts \<and> c \<in> set charSets_extendedAscii)"
  then show "c \<in> set (buildCharset opts)"
    unfolding buildCharset_selection Let_def by auto
qed

theorem ambiguous_filter_witness:
  "\<not> ambiguous initial_options \<and>
   set (buildCharset initial_options) \<inter> set (str ''Il1O0'') = {} \<and>
   ambiguous all_classes \<and>
   of_char CHR ''l'' \<in> set (str ''Il1O0'') \<and>
   lowercase all_classes \<and> of_char CHR ''l'' \<in> set charSets_lowercase \<and>
   of_char CHR ''l'' \<in> set (buildCharset all_classes)"
proof -
  have a: "\<not> ambiguous initial_options"
    by (simp add: initial_options_def)
  have b: "ambiguous all_classes" "lowercase all_classes"
    by (simp_all add: all_classes_def)
  have c: "of_char CHR ''l'' \<in> set (str ''Il1O0'')"
    by (simp add: str_def)
  have d: "of_char CHR ''l'' \<in> set charSets_lowercase"
    by (simp add: charSets_lowercase_def str_def)
  from ambiguous_filter [of initial_options] a
  have e: "set (buildCharset initial_options) \<inter> set (str ''Il1O0'') = {}"
    by simp
  from ambiguous_filter [of all_classes] b c d
  have f: "of_char CHR ''l'' \<in> set (buildCharset all_classes)"
    by blast
  from a b c d e f show ?thesis by simp
qed

text \<open>
  Claim C5. The pool has no duplicate character: its entries are pairwise distinct, and
  its length is the number of characters eligible under the options, that is, the
  characters of a selected class that are not ambiguous or are allowed to be.
\<close>

theorem pool_has_no_duplicates:
  "distinct (buildCharset opts) \<and>
   length (buildCharset opts) =
     card {c. ((lowercase opts \<and> c \<in> set charSets_lowercase) \<or>
               (uppercase opts \<and> c \<in> set charSets_uppercase) \<or>
               (numbers opts \<and> c \<in> set charSets_numbers) \<or>
               (symbols opts \<and> c \<in> set charSets_symbols) \<or>
               (extendedAscii opts \<and> c \<in> set charSets_extendedAscii)) \<and>
              (c \<in> set charSets_ambiguous \<longrightarrow> ambiguous opts)}"
proof -
  have "set (buildCharset opts) =
     {c. ((lowercase opts \<and> c \<in> set charSets_lowercase) \<or>
               (uppercase opts \<and> c \<in> set charSets_uppercase) \<or>
               (numbers opts \<and> c \<in> set charSets_numbers) \<or>
               (symbols opts \<and> c \<in> set charSets_symbols) \<or>
               (extendedAscii opts \<and> c \<in> set charSets_extendedAscii)) \<and>
              (c \<in> set charSets_ambiguous \<longrightarrow> ambiguous opts)}"
    unfolding buildCharset_selection Let_def by auto
  with distinct_card [OF buildCharset_distinct [of opts]] buildCharset_distinct [of opts]
  show ?thesis by simp
qed

theorem pool_has_no_duplicates_witness:
  "distinct (buildCharset initial_options) \<and> length (buildCharset initial_options) = 89 \<and>
   card {c. ((lowercase initial_options \<and> c \<in> set charSets_lowercase) \<or>
               (uppercase initial_options \<and> c \<in> set charSets_uppercase) \<or>
               (numbers initial_options \<and> c \<in> set charSets_numbers) \<or>
               (symbols initial_options \<and> c \<in> set charSets_symbols) \<or>
               (extendedAscii initial_options \<and> c \<in> set charSets_extendedAscii)) \<and>
              (c \<in> set charSets_ambiguous \<longrightarrow> ambiguous initial_options)} = 89"
proof -
  have len: "length (buildCharset initial_options) = 89"
    unfolding initial_pool by (simp add: str_def)
  from pool_has_no_duplicates [of initial_options] show ?thesis
    unfolding len by simp
qed

section \<open>How many bytes are rejected\<close>

lemma mod_256_below_128:
  fixes N :: nat
  assumes "2 \<le> N" and "N \<le> 256"
  shows "256 mod N < 128"
proof (cases "N \<le> 128")
  case True
  from assms(1) have "256 mod N < N" by simp
  with True show ?thesis by simp
next
  case False
  with assms(2) have "256 mod N = (256 - N) mod N"
    by (simp add: le_mod_geq)
  also from False have "\<dots> = 256 - N" by simp
  finally show ?thesis using False by simp
qed

lemma rejected_bytes_image:
  fixes m :: nat
  shows "unat ` {b :: byte. \<not> unat b < m} = {m..<256}"
proof (intro equalityI subsetI)
  fix n assume "n \<in> unat ` {b :: byte. \<not> unat b < m}"
  then obtain b :: byte where b: "n = unat b" "\<not> unat b < m" by auto
  have "unat b < 256" using unsigned_less [of b, where 'a = nat] by simp
  with b show "n \<in> {m..<256}" by simp
next
  fix n assume n: "n \<in> {m..<256}"
  then have "unat (of_nat n :: byte) = n" by (simp add: unat_of_nat)
  with n show "n \<in> unat ` {b :: byte. \<not> unat b < m}"
    by (intro image_eqI [where x = "of_nat n"]) simp_all
qed

lemma card_rejected_bytes:
  "card {b :: byte. \<not> unat b < m} = 256 - m"
proof -
  have "inj_on unat {b :: byte. \<not> unat b < m}"
    by (rule inj_onI) (simp add: word_unat_eq_iff)
  then have "card (unat ` {b :: byte. \<not> unat b < m}) = card {b :: byte. \<not> unat b < m}"
    by (rule card_image)
  then show ?thesis by (simp add: rejected_bytes_image)
qed

lemma initial_pool_length: "length (buildCharset initial_options) = 89"
  unfolding initial_pool by (simp add: str_def)

text \<open>
  Claim C8. For a pool of size \<open>N\<close> with \<open>2 \<le> N \<le> 256\<close>, the byte values that the
  threshold test rejects are \<open>256 mod N\<close> in number, fewer than 128, so a uniformly drawn
  byte is rejected with probability below one half.
\<close>

theorem rejection_below_half:
  assumes "2 \<le> length cs" and "length cs \<le> 256"
  shows "card {b :: byte. \<not> unat b < maxValidValue cs} = 256 mod length cs \<and>
         256 mod length cs < 128 \<and>
         real (card {b :: byte. \<not> unat b < maxValidValue cs}) / 256 < 1 / 2"
proof -
  have c: "card {b :: byte. \<not> unat b < maxValidValue cs} = 256 mod length cs"
    by (simp add: card_rejected_bytes maxValidValue_def)
  have b: "256 mod length cs < 128"
    by (rule mod_256_below_128 [OF assms])
  from c b show ?thesis by simp
qed

theorem rejection_below_half_witness:
  "2 \<le> length (buildCharset initial_options) \<and>
   length (buildCharset initial_options) \<le> 256 \<and>
   card {b :: byte. \<not> unat b < maxValidValue (buildCharset initial_options)} = 78 \<and>
   real (card {b :: byte. \<not> unat b < maxValidValue (buildCharset initial_options)}) / 256 < 1 / 2"
proof -
  have h1: "2 \<le> length (buildCharset initial_options)"
    and h2: "length (buildCharset initial_options) \<le> 256"
    by (simp_all add: initial_pool_length)
  from rejection_below_half [OF h1 h2] h1 h2 show ?thesis
    by (simp add: initial_pool_length)
qed

section \<open>Running generatePassword\<close>

text \<open>
  The state after a generation that finds enough accepted bytes, and the special case
  of a source that repeats one accepted byte.
\<close>

lemma generatePassword_success:
  assumes "buildCharset (options st) \<noteq> []"
    and "passwordLength st \<le>
           length (filter (\<lambda>b. unat b < 256 - 256 mod length (buildCharset (options st)))
                     (map rnd [0..<n]))"
    and "pw = map (\<lambda>b. buildCharset (options st) ! (unat b mod length (buildCharset (options st))))
               (take (passwordLength st)
                  (filter (\<lambda>b. unat b < 256 - 256 mod length (buildCharset (options st)))
                     (map rnd [0..<n])))"
  shows "generatePassword rnd st =
    Some (st\<lparr>password := pw,
             entropy := round (calculateEntropy (buildCharset (options st)) (passwordLength st)),
             strengthLevel :=
               getStrengthLevel (calculateEntropy (buildCharset (options st)) (passwordLength st)),
             animateStrength := True,
             passwordHistory := pw # take 4 (passwordHistory st),
             copied := False\<rparr>)"
  using assms(1) assemble_take_filter [OF assms(2)] assms(3)
  by (simp add: generatePassword_def Let_def)

lemma generatePassword_constant:
  assumes "buildCharset (options st) \<noteq> []"
    and "k < 256 - 256 mod length (buildCharset (options st))"
  shows "generatePassword (constant_source k) st =
    Some (st\<lparr>password :=
               replicate (passwordLength st)
                 (buildCharset (options st) ! (k mod length (buildCharset (options st)))),
             entropy := round (calculateEntropy (buildCharset (options st)) (passwordLength st)),
             strengthLevel :=
               getStrengthLevel (calculateEntropy (buildCharset (options st)) (passwordLength st)),
             animateStrength := True,
             passwordHistory :=
               replicate (passwordLength st)
                 (buildCharset (options st) ! (k mod length (buildCharset (options st))))
               # take 4 (passwordHistory st),
             copied := False\<rparr>)"
proof -
  let ?cs = "buildCharset (options st)"
  let ?L = "passwordLength st"
  from assms(2) have k: "unat (of_nat k :: byte) = k"
    by (simp add: unat_of_nat)
  have "constant_source k = (\<lambda>i. of_nat k)"
    by (rule ext) (simp add: constant_source_def)
  then have bytes: "map (constant_source k) [0..<?L] = replicate ?L (of_nat k)"
    by (simp add: map_replicate_const)
  have enough: "?L \<le> length (filter (\<lambda>b. unat b < 256 - 256 mod length ?cs)
                     (map (constant_source k) [0..<?L]))"
    unfolding bytes using assms(2) k by simp
  have pw: "replicate ?L (?cs ! (k mod length ?cs)) =
      map (\<lambda>b. ?cs ! (unat b mod length ?cs))
        (take ?L (filter (\<lambda>b. unat b < 256 - 256 mod length ?cs)
                     (map (constant_source k) [0..<?L])))"
    unfolding bytes using assms(2) k by simp
  show ?thesis
    by (rule generatePassword_success [OF assms(1) enough pw])
qed

text \<open>The pools of two of the concrete option sets.\<close>

lemma no_classes_pool: "buildCharset no_classes = []"
  by (simp add: buildCharset_def no_classes_def)

lemma lowercase_pool: "buildCharset lowercase_only = str ''abcdefghijkmnopqrstuvwxyz''"
  by (simp add: buildCharset_def lowercase_only_def charSets_lowercase_def
      charSets_ambiguous_def str_def)

section \<open>No class selected\<close>

text \<open>
  Claim C3 says that with every inclusion flag off the generation fails with a typed
  error and no password output. The component has no error values: the call returns
  as every other call does, and the password cell, the one the page shows and copies,
  then holds a text of 40 characters.
\<close>

theorem typed_error_counterexample:
  "map_option password (generatePassword (constant_source 0) (initial_state\<lparr>options := no_classes\<rparr>))
     = Some (str ''Please select at least one character set'') \<and>
   length (str ''Please select at least one character set'') = 40"
  by (simp add: generatePassword_def no_classes_pool str_def)

text \<open>
  Claim C3, amended. With every inclusion flag off, whatever the \<open>ambiguous\<close> flag,
  \<open>generatePassword\<close> generates no password and reads no random byte: it returns with
  the password cell set to the message \<open>Please select at least one character set\<close> and
  the entropy and strength level set to 0, and leaves every other cell, the history
  among them, as it was.
\<close>

theorem empty_policy_sets_message:
  assumes "\<not> lowercase (options st)" and "\<not> uppercase (options st)"
    and "\<not> numbers (options st)" and "\<not> symbols (options st)"
    and "\<not> extendedAscii (options st)"
  shows "generatePassword rnd st =
           Some (st\<lparr>password := str ''Please select at least one character set'',
                    entropy := 0, strengthLevel := 0\<rparr>)"
proof -
  from assms have "buildCharset (options st) = []"
    by (simp add: buildCharset_def)
  then show ?thesis
    by (simp add: generatePassword_def)
qed

theorem empty_policy_sets_message_witness:
  "\<not> lowercase (options (length8_state\<lparr>options := no_classes\<rparr>)) \<and>
   \<not> uppercase (options (length8_state\<lparr>options := no_classes\<rparr>)) \<and>
   \<not> numbers (options (length8_state\<lparr>options := no_classes\<rparr>)) \<and>
   \<not> symbols (options (length8_state\<lparr>options := no_classes\<rparr>)) \<and>
   \<not> extendedAscii (options (length8_state\<lparr>options := no_classes\<rparr>)) \<and>
   generatePassword countdown_source (length8_state\<lparr>options := no_classes\<rparr>) =
     Some (length8_state\<lparr>options := no_classes,
             password := str ''Please select at least one character set'',
             entropy := 0, strengthLevel := 0\<rparr>)"
proof -
  have h: "\<not> lowercase (options (length8_state\<lparr>options := no_classes\<rparr>))"
    "\<not> uppercase (options (length8_state\<lparr>options := no_classes\<rparr>))"
    "\<not> numbers (options (length8_state\<lparr>options := no_classes\<rparr>))"
    "\<not> symbols (options (length8_state\<lparr>options := no_classes\<rparr>))"
    "\<not> extendedAscii (options (length8_state\<lparr>options := no_classes\<rparr>))"
    by (simp_all add: no_classes_def)
  from empty_policy_sets_message [OF h, of countdown_source] h show ?thesis
    by simp
qed

section \<open>The requested length\<close>

text \<open>
  The slider keeps the length within its bounds, and a generation that returns has
  produced a password of exactly the length it read.
\<close>

lemma range_input_value_bounds:
  "slider_min \<le> range_input_value requested \<and> range_input_value requested \<le> slider_max"
  unfolding range_input_value_def slider_min_def slider_max_def by linarith

lemma while_loop_length_aux:
  assumes "while_loop cs L rnd pos pw = Some y"
  shows "length pw \<le> L \<longrightarrow> length y = L"
proof (rule while_loop.raw_induct
    [where P = "\<lambda>cs L rnd pos pw y. length pw \<le> L \<longrightarrow> length y = L", OF _ assms])
  fix f :: "jsstring \<Rightarrow> nat \<Rightarrow> random_source \<Rightarrow> nat \<Rightarrow> jsstring \<Rightarrow> jsstring option"
  fix cs L rnd pos pw y
  assume IH: "\<And>cs L rnd pos pw y. f cs L rnd pos pw = Some y \<Longrightarrow> length pw \<le> L \<longrightarrow> length y = L"
  assume body: "(if length pw < L
      then if unat (hd (getSecureRandomValues rnd pos 1)) < 256 - 256 mod length cs
           then f cs L rnd (pos + 1)
                 (pw @ [cs ! (unat (hd (getSecureRandomValues rnd pos 1)) mod length cs)])
           else f cs L rnd (pos + 1) pw
      else Some pw) = Some y"
  show "length pw \<le> L \<longrightarrow> length y = L"
  proof (cases "length pw < L")
    case False
    with body show ?thesis by auto
  next
    case True
    show ?thesis
    proof (cases "unat (hd (getSecureRandomValues rnd pos 1)) < 256 - 256 mod length cs")
      case acc: True
      with True body have "f cs L rnd (pos + 1)
          (pw @ [cs ! (unat (hd (getSecureRandomValues rnd pos 1)) mod length cs)]) = Some y"
        by simp
      from IH [OF this] True show ?thesis by simp
    next
      case rej: False
      with True body have "f cs L rnd (pos + 1) pw = Some y" by simp
      from IH [OF this] True show ?thesis by simp
    qed
  qed
qed

lemma assemble_length:
  assumes "assemble cs L rnd = Some pw"
  shows "length pw = L"
proof -
  have "length (for_loop cs L (getSecureRandomValues rnd 0 (L * 2)) []) \<le> L"
    by (simp add: for_loop_take_filter)
  with while_loop_length_aux [of cs L rnd "L * 2" _ pw] assms show ?thesis
    by (simp add: assemble_def Let_def)
qed

lemma generatePassword_length:
  assumes "generatePassword rnd st = Some st'" and "buildCharset (options st) \<noteq> []"
  shows "length (password st') = passwordLength st \<and> passwordLength st' = passwordLength st"
  using assms
  by (auto simp: generatePassword_def Let_def assemble_length split: option.splits)

text \<open>
  Claim C9. A request for a length outside the supported bounds, 8 to 64, is clamped
  into them: the range input turns a request below 8 into 8 and one above 64 into 64,
  and keeps a request within the bounds. The length cell starts within the bounds, the
  slider is its only writer and a generation leaves it as it was, so a generation never
  returns a password whose length is outside the bounds; with a pool that is not empty
  and enough accepted bytes, the generation after a request returns a password of the
  clamped length. The batch of twice that many bytes stays far below the 65536 bytes
  that the platform hands out in one call. The component has no \<open>InvalidLength\<close>
  error; of the two behaviours the claim allows, it is the clamp that the code has.
\<close>

theorem length_clamped_into_bounds:
  "passwordLength (passwordLength_onChange requested st) = range_input_value requested \<and>
   slider_min \<le> range_input_value requested \<and>
   range_input_value requested \<le> slider_max \<and>
   (requested < int slider_min \<longrightarrow> range_input_value requested = slider_min) \<and>
   (int slider_max < requested \<longrightarrow> range_input_value requested = slider_max) \<and>
   (int slider_min \<le> requested \<and> requested \<le> int slider_max \<longrightarrow>
      int (range_input_value requested) = requested) \<and>
   range_input_value requested * 2 \<le> 65536 \<and>
   slider_min \<le> passwordLength initial_state \<and>
   passwordLength initial_state \<le> slider_max \<and>
   (generatePassword rnd s = Some s' \<longrightarrow> passwordLength s' = passwordLength s) \<and>
   (slider_min \<le> passwordLength s \<and> passwordLength s \<le> slider_max \<and>
    buildCharset (options s) \<noteq> [] \<and> generatePassword rnd s = Some s' \<longrightarrow>
      slider_min \<le> length (password s') \<and> length (password s') \<le> slider_max) \<and>
   (buildCharset (options st) \<noteq> [] \<and>
    range_input_value requested \<le>
      length (filter (\<lambda>b. unat b < 256 - 256 mod length (buildCharset (options st)))
                (map rnd [0..<n])) \<longrightarrow>
      (\<exists>st'. generatePassword rnd (passwordLength_onChange requested st) = Some st' \<and>
         length (password st') = range_input_value requested \<and>
         passwordLength st' = range_input_value requested))"
proof (intro conjI impI)
  show "passwordLength (passwordLength_onChange requested st) = range_input_value requested"
    by (simp add: passwordLength_onChange_def)
  show "slider_min \<le> range_input_value requested"
    and "range_input_value requested \<le> slider_max"
    using range_input_value_bounds [of requested] by simp_all
  then show "range_input_value requested * 2 \<le> 65536"
    by (simp add: slider_max_def)
  show "slider_min \<le> passwordLength initial_state"
    and "passwordLength initial_state \<le> slider_max"
    by (simp_all add: initial_state_def slider_min_def slider_max_def)
next
  assume "requested < int slider_min"
  then show "range_input_value requested = slider_min"
    unfolding range_input_value_def slider_min_def slider_max_def by simp
next
  assume "int slider_max < requested"
  then show "range_input_value requested = slider_max"
    unfolding range_input_value_def slider_min_def slider_max_def by simp
next
  assume "int slider_min \<le> requested \<and> requested \<le> int slider_max"
  then show "int (range_input_value requested) = requested"
    unfolding range_input_value_def slider_min_def slider_max_def by simp
next
  assume "generatePassword rnd s = Some s'"
  then show "passwordLength s' = passwordLength s"
    by (auto simp: generatePassword_def Let_def split: if_splits option.splits)
next
  assume a: "slider_min \<le> passwordLength s \<and> passwordLength s \<le> slider_max \<and>
    buildCharset (options s) \<noteq> [] \<and> generatePassword rnd s = Some s'"
  then have "length (password s') = passwordLength s"
    using generatePassword_length [of rnd s s'] by simp
  with a show "slider_min \<le> length (password s')" and "length (password s') \<le> slider_max"
    by simp_all
next
  assume a: "buildCharset (options st) \<noteq> [] \<and>
    range_input_value requested \<le>
      length (filter (\<lambda>b. unat b < 256 - 256 mod length (buildCharset (options st)))
                (map rnd [0..<n]))"
  let ?st = "passwordLength_onChange requested st"
  have h1: "buildCharset (options ?st) \<noteq> []"
    using a by (simp add: passwordLength_onChange_def)
  have h2: "passwordLength ?st \<le>
      length (filter (\<lambda>b. unat b < 256 - 256 mod length (buildCharset (options ?st)))
                (map rnd [0..<n]))"
    using a by (simp add: passwordLength_onChange_def)
  have len: "passwordLength ?st = range_input_value requested"
    by (simp add: passwordLength_onChange_def)
  from generatePassword_success [OF h1 h2 refl]
  obtain st' where g: "generatePassword rnd ?st = Some st'"
    by blast
  from generatePassword_length [OF g h1]
  have "length (password st') = range_input_value requested"
    and "passwordLength st' = range_input_value requested"
    unfolding len by simp_all
  with g show "\<exists>st'. generatePassword rnd ?st = Some st' \<and>
         length (password st') = range_input_value requested \<and>
         passwordLength st' = range_input_value requested"
    by blast
qed

theorem length_clamped_into_bounds_witness:
  "range_input_value 3 = 8 \<and> range_input_value 129 = 64 \<and> range_input_value 20 = 20 \<and>
   passwordLength (passwordLength_onChange 129 initial_state) = 64 \<and>
   buildCharset (options initial_state) \<noteq> [] \<and>
   generatePassword (constant_source 0) (passwordLength_onChange 3 initial_state) \<noteq> None \<and>
   length (password
     (the (generatePassword (constant_source 0) (passwordLength_onChange 3 initial_state)))) = 8 \<and>
   generatePassword (constant_source 0) (passwordLength_onChange 129 initial_state) \<noteq> None \<and>
   length (password
     (the (generatePassword (constant_source 0) (passwordLength_onChange 129 initial_state)))) = 64 \<and>
   passwordLength
     (the (generatePassword (constant_source 0) (passwordLength_onChange 129 initial_state))) = 64"
proof -
  define lo where "lo = passwordLength_onChange 3 initial_state"
  define hi where "hi = passwordLength_onChange 129 initial_state"
  define lo' where "lo' = the (generatePassword (constant_source 0) lo)"
  define hi' where "hi' = the (generatePassword (constant_source 0) hi)"
  have below: "(3 :: int) < int slider_min" and above: "int slider_max < (129 :: int)"
    and inside: "int slider_min \<le> (20 :: int) \<and> (20 :: int) \<le> int slider_max"
    by (simp_all add: slider_min_def slider_max_def)
  have o: "options initial_state = initial_options"
    by (simp add: initial_state_def)
  have pool: "buildCharset (options initial_state) \<noteq> []"
    unfolding o initial_pool by (simp add: str_def)
  have "constant_source 0 = (\<lambda>i. 0)"
    by (rule ext) (simp add: constant_source_def)
  then have bytes: "map (constant_source 0) [0..<k] = replicate k 0" for k
    by (simp add: map_replicate_const)
  have enough: "buildCharset (options initial_state) \<noteq> [] \<and>
      range_input_value r \<le>
        length (filter (\<lambda>b. unat b < 256 - 256 mod length (buildCharset (options initial_state)))
                  (map (constant_source 0) [0..<range_input_value r]))" for r
    unfolding bytes o initial_pool_length using pool o by simp
  note lo_t = length_clamped_into_bounds
    [of 3 initial_state "constant_source 0" lo lo' "range_input_value 3"]
  note hi_t = length_clamped_into_bounds
    [of 129 initial_state "constant_source 0" hi hi' "range_input_value 129"]
  note in_t = length_clamped_into_bounds
    [of 20 initial_state "constant_source 0" lo lo' "range_input_value 20"]
  from lo_t below have v3: "range_input_value 3 = 8"
    unfolding slider_min_def by blast
  from hi_t above have v129: "range_input_value 129 = 64"
    unfolding slider_max_def by blast
  from in_t inside have "int (range_input_value 20) = 20"
    by blast
  then have v20: "range_input_value 20 = 20"
    by simp
  from hi_t have phi: "passwordLength hi = 64"
    unfolding hi_def v129 by blast
  from lo_t enough [of 3]
  obtain a where ga: "generatePassword (constant_source 0) lo = Some a"
    and la: "length (password a) = range_input_value 3"
    unfolding lo_def by blast
  from hi_t enough [of 129]
  obtain b where gb: "generatePassword (constant_source 0) hi = Some b"
    and lb: "length (password b) = range_input_value 129"
    unfolding hi_def by blast
  have a: "lo' = a" and b: "hi' = b"
    unfolding lo'_def hi'_def by (simp_all add: ga gb)
  have poolhi: "buildCharset (options hi) \<noteq> []"
    using pool by (simp add: hi_def passwordLength_onChange_def)
  from hi_t gb b have keep: "passwordLength hi' = passwordLength hi"
    by blast
  from hi_t phi poolhi gb b
  have inv: "slider_min \<le> length (password hi') \<and> length (password hi') \<le> slider_max"
    unfolding slider_min_def slider_max_def by simp
  from v3 v129 v20 phi pool ga gb la lb a b keep inv show ?thesis
    unfolding lo_def [symmetric] hi_def [symmetric] lo'_def [symmetric] hi'_def [symmetric]
    by simp
qed

section \<open>The password history\<close>

lemma generatePassword_history:
  assumes "generatePassword rnd st = Some st'"
  shows "passwordHistory st' =
     (if buildCharset (options st) = [] then passwordHistory st
      else password st' # take 4 (passwordHistory st))"
  using assms
  by (auto simp: generatePassword_def Let_def split: if_splits option.splits)

lemma generatePassword_history_bound:
  assumes "generatePassword rnd st = Some st'" and "length (passwordHistory st) \<le> 5"
  shows "length (passwordHistory st') \<le> 5"
  using generatePassword_history [OF assms(1)] assms(2)
  by (simp split: if_splits)

lemma generations_history_bound:
  assumes "generations requests st = Some final" and "length (passwordHistory st) \<le> 5"
  shows "length (passwordHistory final) \<le> 5"
  using assms
proof (induction requests arbitrary: st)
  case Nil
  then show ?case by simp
next
  case (Cons request requests)
  obtain opts len rnd where request: "request = (opts, len, rnd)"
    by (cases request)
  from Cons.prems(1) obtain st' where
    step: "generatePassword rnd (st\<lparr>options := opts, passwordLength := len\<rparr>) = Some st'"
    and rest: "generations requests st' = Some final"
    unfolding request by (auto split: option.splits)
  from Cons.prems(2) have "length (passwordHistory (st\<lparr>options := opts, passwordLength := len\<rparr>)) \<le> 5"
    by simp
  from generatePassword_history_bound [OF step this] have "length (passwordHistory st') \<le> 5" .
  with Cons.IH rest show ?case by blast
qed

lemma lowercase_generation:
  assumes "k < 25" and "options st = lowercase_only" and "passwordLength st = 8"
  shows "generatePassword (constant_source k) st =
    Some (st\<lparr>password := replicate 8 (str ''abcdefghijkmnopqrstuvwxyz'' ! k),
             entropy := round (calculateEntropy (buildCharset lowercase_only) 8),
             strengthLevel := getStrengthLevel (calculateEntropy (buildCharset lowercase_only) 8),
             animateStrength := True,
             passwordHistory :=
               replicate 8 (str ''abcdefghijkmnopqrstuvwxyz'' ! k) # take 4 (passwordHistory st),
             copied := False\<rparr>)"
proof -
  have len: "length (buildCharset lowercase_only) = 25"
    unfolding lowercase_pool by (simp add: str_def)
  have h1: "buildCharset (options st) \<noteq> []"
    using len assms(2) by auto
  have h2: "k < 256 - 256 mod length (buildCharset (options st))"
    using assms by (simp add: len)
  from assms have "k mod 25 = k" by simp
  with generatePassword_constant [OF h1 h2] show ?thesis
    by (simp add: len assms) (simp add: lowercase_pool)
qed

lemma replicate_8: "replicate 8 x = [x, x, x, x, x, x, x, x]"
  by (simp add: numeral_eq_Suc)

lemma five_generations:
  "generations five_requests initial_state =
     Some (initial_state\<lparr>options := lowercase_only, passwordLength := 8,
             password := str ''eeeeeeee'',
             entropy := round (calculateEntropy (buildCharset lowercase_only) 8),
             strengthLevel := getStrengthLevel (calculateEntropy (buildCharset lowercase_only) 8),
             animateStrength := True,
             passwordHistory :=
               [str ''eeeeeeee'', str ''dddddddd'', str ''cccccccc'', str ''bbbbbbbb'',
                str ''aaaaaaaa''],
             copied := False\<rparr>)"
  by (simp add: five_requests_def lowercase_generation initial_state_def str_def replicate_8)

text \<open>
  Claim C7. Through any sequence of generations from the initial state the history has
  at most 5 entries. A generation with a pool that is not empty puts the new password
  in front of the first 4 entries of the old history, so that of 5 old entries the last,
  the oldest, is dropped; a generation with an empty pool leaves the history as it was.
\<close>

theorem history_bounded_newest_first:
  "(generations requests initial_state = Some final \<longrightarrow> length (passwordHistory final) \<le> 5) \<and>
   (generatePassword rnd st = Some st' \<longrightarrow>
      (buildCharset (options st) \<noteq> [] \<longrightarrow>
         passwordHistory st' = password st' # take 4 (passwordHistory st)) \<and>
      (buildCharset (options st) \<noteq> [] \<and> length (passwordHistory st) = 5 \<longrightarrow>
         passwordHistory st' = password st' # butlast (passwordHistory st)) \<and>
      (buildCharset (options st) = [] \<longrightarrow> passwordHistory st' = passwordHistory st))"
proof (intro conjI impI)
  assume "generations requests initial_state = Some final"
  moreover have "length (passwordHistory initial_state) \<le> 5"
    by (simp add: initial_state_def)
  ultimately show "length (passwordHistory final) \<le> 5"
    by (rule generations_history_bound)
next
  assume "generatePassword rnd st = Some st'" and "buildCharset (options st) \<noteq> []"
  then show "passwordHistory st' = password st' # take 4 (passwordHistory st)"
    by (simp add: generatePassword_history)
next
  assume g: "generatePassword rnd st = Some st'"
    and "buildCharset (options st) \<noteq> [] \<and> length (passwordHistory st) = 5"
  then have "take 4 (passwordHistory st) = butlast (passwordHistory st)"
    by (simp add: butlast_conv_take)
  with g \<open>buildCharset (options st) \<noteq> [] \<and> length (passwordHistory st) = 5\<close>
  show "passwordHistory st' = password st' # butlast (passwordHistory st)"
    by (simp add: generatePassword_history)
next
  assume "generatePassword rnd st = Some st'" and "buildCharset (options st) = []"
  then show "passwordHistory st' = passwordHistory st"
    by (simp add: generatePassword_history)
qed

theorem history_bounded_newest_first_witness:
  "generations five_requests initial_state \<noteq> None \<and>
   passwordHistory (the (generations five_requests initial_state)) =
     [str ''eeeeeeee'', str ''dddddddd'', str ''cccccccc'', str ''bbbbbbbb'', str ''aaaaaaaa''] \<and>
   length (passwordHistory (the (generations five_requests initial_state))) \<le> 5 \<and>
   generatePassword (constant_source 5) (the (generations five_requests initial_state)) \<noteq> None \<and>
   passwordHistory
     (the (generatePassword (constant_source 5) (the (generations five_requests initial_state)))) =
     [str ''ffffffff'', str ''eeeeeeee'', str ''dddddddd'', str ''cccccccc'', str ''bbbbbbbb''] \<and>
   buildCharset (options ((the (generations five_requests initial_state))\<lparr>options := no_classes\<rparr>)) = [] \<and>
   generatePassword (constant_source 5)
     ((the (generations five_requests initial_state))\<lparr>options := no_classes\<rparr>) \<noteq> None \<and>
   passwordHistory
     (the (generatePassword (constant_source 5)
        ((the (generations five_requests initial_state))\<lparr>options := no_classes\<rparr>))) =
     [str ''eeeeeeee'', str ''dddddddd'', str ''cccccccc'', str ''bbbbbbbb'', str ''aaaaaaaa'']"
proof -
  define s5 where "s5 = the (generations five_requests initial_state)"
  define s6 where "s6 = the (generatePassword (constant_source 5) s5)"
  define s7 where "s7 = the (generatePassword (constant_source 5) (s5\<lparr>options := no_classes\<rparr>))"
  have g5: "generations five_requests initial_state = Some s5"
    unfolding s5_def by (simp add: five_generations)
  have h5: "passwordHistory s5 =
     [str ''eeeeeeee'', str ''dddddddd'', str ''cccccccc'', str ''bbbbbbbb'', str ''aaaaaaaa'']"
    unfolding s5_def by (simp add: five_generations)
  have o5: "options s5 = lowercase_only" and l5: "passwordLength s5 = 8"
    unfolding s5_def by (simp_all add: five_generations)
  have g6: "generatePassword (constant_source 5) s5 = Some s6"
    unfolding s6_def by (simp add: lowercase_generation o5 l5)
  have p6: "password s6 = str ''ffffffff''"
    unfolding s6_def by (simp add: lowercase_generation o5 l5 str_def replicate_8)
  have pool5: "buildCharset (options s5) \<noteq> []"
    unfolding o5 lowercase_pool by (simp add: str_def)
  have full5: "buildCharset (options s5) \<noteq> [] \<and> length (passwordHistory s5) = 5"
    using pool5 h5 by simp
  have pool7: "buildCharset (options (s5\<lparr>options := no_classes\<rparr>)) = []"
    by (simp add: no_classes_pool)
  have g7: "generatePassword (constant_source 5) (s5\<lparr>options := no_classes\<rparr>) = Some s7"
    unfolding s7_def by (simp add: generatePassword_def no_classes_pool)
  from history_bounded_newest_first [of five_requests s5 "constant_source 5" s5 s6] g5
  have a: "length (passwordHistory s5) \<le> 5"
    by blast
  from history_bounded_newest_first [of five_requests s5 "constant_source 5" s5 s6] g6 full5
  have b: "passwordHistory s6 = password s6 # butlast (passwordHistory s5)"
    by blast
  from history_bounded_newest_first
    [of five_requests s5 "constant_source 5" "s5\<lparr>options := no_classes\<rparr>" s7] g7 pool7
  have "passwordHistory s7 = passwordHistory (s5\<lparr>options := no_classes\<rparr>)"
    by blast
  then have c: "passwordHistory s7 = passwordHistory s5"
    by simp
  from g5 h5 a g6 b p6 pool7 g7 c show ?thesis
    unfolding s5_def [symmetric] s6_def [symmetric] s7_def [symmetric]
    by simp
qed

section \<open>Strength tiers\<close>

lemma upper_digits_symbols_pool:
  "buildCharset upper_digits_symbols =
     str ''ABCDEFGHJKLMNPQRSTUVWXYZ23456789!@#$%^&*()-_=+[]{}|;:,.<>?/~'' @ [96, 34, 39, 92]"
  by (simp add: buildCharset_def upper_digits_symbols_def
      charSets_uppercase_def charSets_numbers_def charSets_symbols_def charSets_ambiguous_def
      str_def)

lemma ln_64: "ln (64 :: real) = 6 * ln 2"
proof -
  have "ln (64 :: real) = ln (2 ^ 6)" by simp
  also have "\<dots> = 6 * ln 2" by (simp only: ln_realpow of_nat_numeral)
  finally show ?thesis .
qed

text \<open>
  Claim C6. The strength level of an entropy value \<open>e\<close> follows half-open intervals
  that include their lower end: below 45 it is level 0, Very Weak; from 45 and below 60
  level 1, Weak; from 60 and below 80 level 2, Medium; from 80 and below 100 level 3,
  Strong; from 100 on level 4, Very Strong. A pool of 64 characters at length 16 has
  entropy \<open>16 * log2 64 = 96\<close> bits, which is level 3, Strong.
\<close>

theorem strength_tiers:
  "(e < 45 \<longrightarrow> getStrengthLevel e = 0) \<and>
   (45 \<le> e \<and> e < 60 \<longrightarrow> getStrengthLevel e = 1) \<and>
   (60 \<le> e \<and> e < 80 \<longrightarrow> getStrengthLevel e = 2) \<and>
   (80 \<le> e \<and> e < 100 \<longrightarrow> getStrengthLevel e = 3) \<and>
   (100 \<le> e \<longrightarrow> getStrengthLevel e = 4) \<and>
   map (\<lambda>level. getStrengthLabel (st\<lparr>strengthLevel := level\<rparr>)) [0, 1, 2, 3, 4] =
     [Some ''Very Weak'', Some ''Weak'', Some ''Medium'', Some ''Strong'', Some ''Very Strong''] \<and>
   (length charset = 64 \<longrightarrow>
      calculateEntropy charset 16 = 96 \<and>
      getStrengthLevel (calculateEntropy charset 16) = 3)"
proof -
  have "calculateEntropy charset 16 = 96" if "length charset = 64"
    using that by (simp add: calculateEntropy_def ln_64)
  then show ?thesis
    by (simp add: getStrengthLevel_def getStrengthLabel_def labels_def)
qed

theorem strength_tiers_witness:
  "getStrengthLevel 44 = 0 \<and> getStrengthLevel 45 = 1 \<and> getStrengthLevel 60 = 2 \<and>
   getStrengthLevel 80 = 3 \<and> getStrengthLevel 100 = 4 \<and>
   length (buildCharset upper_digits_symbols) = 64 \<and>
   calculateEntropy (buildCharset upper_digits_symbols) 16 = 96 \<and>
   getStrengthLevel (calculateEntropy (buildCharset upper_digits_symbols) 16) = 3 \<and>
   getStrengthLabel
     (initial_state\<lparr>strengthLevel :=
        getStrengthLevel (calculateEntropy (buildCharset upper_digits_symbols) 16)\<rparr>) =
     Some ''Strong''"
proof -
  have len: "length (buildCharset upper_digits_symbols) = 64"
    unfolding upper_digits_symbols_pool by (simp add: str_def)
  note t = strength_tiers [where st = initial_state and charset = "buildCharset upper_digits_symbols"]
  from t [of 44] have a: "getStrengthLevel 44 = 0" by simp
  from t [of 45] have b: "getStrengthLevel 45 = 1" by simp
  from t [of 60] have c: "getStrengthLevel 60 = 2" by simp
  from t [of 80] have d: "getStrengthLevel 80 = 3" by simp
  from t [of 100] have e: "getStrengthLevel 100 = 4" by simp
  from t [of 0] len have f: "calculateEntropy (buildCharset upper_digits_symbols) 16 = 96"
    and g: "getStrengthLevel (calculateEntropy (buildCharset upper_digits_symbols) 16) = 3"
    by blast+
  from t [of 0] have h: "getStrengthLabel (initial_state\<lparr>strengthLevel := 3\<rparr>) = Some ''Strong''"
    by simp
  from a b c d e len f g h show ?thesis by simp
qed

section \<open>The crack-time estimate\<close>

lemma uppercase_pool: "buildCharset uppercase_only = str ''ABCDEFGHJKLMNPQRSTUVWXYZ''"
  by (simp add: buildCharset_def uppercase_only_def charSets_uppercase_def
      charSets_ambiguous_def str_def)

lemma generatePassword_entropy:
  assumes "generatePassword rnd st = Some st'" and "buildCharset (options st) \<noteq> []"
  shows "entropy st' = round (calculateEntropy (buildCharset (options st)) (passwordLength st))"
  using assms
  by (auto simp: generatePassword_def Let_def split: if_splits option.splits)

lemma crack_time_depends_on_entropy:
  "entropy a = entropy b \<Longrightarrow> getCrackTimeEstimation a = getCrackTimeEstimation b"
  by (simp add: getCrackTimeEstimation_def)

lemma round_between:
  fixes x :: real
  assumes "of_int y - 1 / 2 \<le> x" and "x < of_int y + 1 / 2"
  shows "round x = y"
  using assms by (intro round_unique) simp_all

lemma entropy_bounds:
  fixes N :: nat
  assumes "2 ^ 73 \<le> N ^ 16" and "N ^ 16 < 2 ^ 75"
  shows "round (8 * (ln (real N) / ln 2)) = 37"
proof -
  have N: "0 < real N"
    using assms(1) by (cases "N = 0") simp_all
  have ln2: "0 < ln (2 :: real)" by simp
  have p2: "0 < (2 :: real) ^ k" for k by simp
  have pN: "0 < real N ^ 16" using N by simp
  have "real (2 ^ 73) \<le> real (N ^ 16)"
    using assms(1) by (simp only: of_nat_le_iff)
  then have "(2 :: real) ^ 73 \<le> real N ^ 16"
    by (simp only: of_nat_power of_nat_numeral)
  then have "ln ((2 :: real) ^ 73) \<le> ln (real N ^ 16)"
    by (simp only: ln_le_cancel_iff [OF p2 pN])
  then have lo: "73 * ln 2 \<le> 16 * ln (real N)"
    by (simp only: ln_realpow of_nat_numeral)
  have "real (N ^ 16) < real (2 ^ 75)"
    using assms(2) by (simp only: of_nat_less_iff)
  then have "real N ^ 16 < (2 :: real) ^ 75"
    by (simp only: of_nat_power of_nat_numeral)
  then have "ln (real N ^ 16) < ln ((2 :: real) ^ 75)"
    by (simp only: ln_less_cancel_iff [OF pN p2])
  then have hi: "16 * ln (real N) < 75 * ln 2"
    by (simp only: ln_realpow of_nat_numeral)
  from lo ln2 have "37 - 1 / 2 \<le> 8 * (ln (real N) / ln 2)"
    by (simp add: field_simps)
  moreover from hi ln2 have "8 * (ln (real N) / ln 2) < 37 + 1 / 2"
    by (simp add: field_simps)
  ultimately show ?thesis
    by (intro round_between) simp_all
qed

lemma lowercase_entropy: "round (calculateEntropy (buildCharset lowercase_only) 8) = 37"
  unfolding lowercase_pool calculateEntropy_def Let_def
  using entropy_bounds [of 25] by (simp add: str_def)

lemma uppercase_entropy: "round (calculateEntropy (buildCharset uppercase_only) 8) = 37"
  unfolding uppercase_pool calculateEntropy_def Let_def
  using entropy_bounds [of 24] by (simp add: str_def)

lemma crack_time_37: "getCrackTimeEstimation (st\<lparr>entropy := 37\<rparr>) = ''7 seconds''"
  by (simp add: getCrackTimeEstimation_def Let_def round_def decimal.simps)

text \<open>
  Claim C10. After a generation the \<open>entropy\<close> cell holds the entropy rounded to an
  integer, and the crack-time text is computed from that cell alone, not from the exact
  entropy: two generations whose exact entropies round to the same integer show the
  same crack-time text.
\<close>

theorem crack_time_from_rounded_entropy:
  assumes "generatePassword rnd1 st1 = Some st1'"
    and "generatePassword rnd2 st2 = Some st2'"
    and "buildCharset (options st1) \<noteq> []"
    and "buildCharset (options st2) \<noteq> []"
    and "round (calculateEntropy (buildCharset (options st1)) (passwordLength st1)) =
         round (calculateEntropy (buildCharset (options st2)) (passwordLength st2))"
  shows "entropy st1' = round (calculateEntropy (buildCharset (options st1)) (passwordLength st1)) \<and>
         getCrackTimeEstimation st1' =
           getCrackTimeEstimation
             (st\<lparr>entropy := round (calculateEntropy (buildCharset (options st1)) (passwordLength st1))\<rparr>) \<and>
         getCrackTimeEstimation st1' = getCrackTimeEstimation st2'"
proof -
  have e1: "entropy st1' = round (calculateEntropy (buildCharset (options st1)) (passwordLength st1))"
    by (rule generatePassword_entropy [OF assms(1) assms(3)])
  have e2: "entropy st2' = round (calculateEntropy (buildCharset (options st2)) (passwordLength st2))"
    by (rule generatePassword_entropy [OF assms(2) assms(4)])
  have "getCrackTimeEstimation st1' =
      getCrackTimeEstimation
        (st\<lparr>entropy := round (calculateEntropy (buildCharset (options st1)) (passwordLength st1))\<rparr>)"
    by (rule crack_time_depends_on_entropy) (simp add: e1)
  moreover have "getCrackTimeEstimation st1' = getCrackTimeEstimation st2'"
    by (rule crack_time_depends_on_entropy) (simp add: e1 e2 assms(5))
  ultimately show ?thesis using e1 by simp
qed

theorem crack_time_from_rounded_entropy_witness:
  "generatePassword (constant_source 3) lowercase8_state \<noteq> None \<and>
   generatePassword (constant_source 3) uppercase8_state \<noteq> None \<and>
   buildCharset (options lowercase8_state) \<noteq> [] \<and>
   buildCharset (options uppercase8_state) \<noteq> [] \<and>
   calculateEntropy (buildCharset (options lowercase8_state)) (passwordLength lowercase8_state) \<noteq>
   calculateEntropy (buildCharset (options uppercase8_state)) (passwordLength uppercase8_state) \<and>
   round (calculateEntropy (buildCharset (options lowercase8_state)) (passwordLength lowercase8_state)) = 37 \<and>
   round (calculateEntropy (buildCharset (options uppercase8_state)) (passwordLength uppercase8_state)) = 37 \<and>
   getCrackTimeEstimation (the (generatePassword (constant_source 3) lowercase8_state)) = ''7 seconds'' \<and>
   getCrackTimeEstimation (the (generatePassword (constant_source 3) uppercase8_state)) = ''7 seconds''"
proof -
  define l where "l = the (generatePassword (constant_source 3) lowercase8_state)"
  define u where "u = the (generatePassword (constant_source 3) uppercase8_state)"
  have ol: "options lowercase8_state = lowercase_only" "passwordLength lowercase8_state = 8"
    and ou: "options uppercase8_state = uppercase_only" "passwordLength uppercase8_state = 8"
    by (simp_all add: lowercase8_state_def uppercase8_state_def length8_state_def)
  have pl: "buildCharset (options lowercase8_state) \<noteq> []"
    unfolding ol lowercase_pool by (simp add: str_def)
  have pu: "buildCharset (options uppercase8_state) \<noteq> []"
    unfolding ou uppercase_pool by (simp add: str_def)
  have kl: "3 < 256 - 256 mod length (buildCharset (options lowercase8_state))"
    unfolding ol lowercase_pool by (simp add: str_def)
  have ku: "3 < 256 - 256 mod length (buildCharset (options uppercase8_state))"
    unfolding ou uppercase_pool by (simp add: str_def)
  have gl: "generatePassword (constant_source 3) lowercase8_state = Some l"
    unfolding l_def by (simp add: generatePassword_constant [OF pl kl])
  have gu: "generatePassword (constant_source 3) uppercase8_state = Some u"
    unfolding u_def by (simp add: generatePassword_constant [OF pu ku])
  have rl: "round (calculateEntropy (buildCharset (options lowercase8_state))
              (passwordLength lowercase8_state)) = 37"
    unfolding ol by (rule lowercase_entropy)
  have ru: "round (calculateEntropy (buildCharset (options uppercase8_state))
              (passwordLength uppercase8_state)) = 37"
    unfolding ou by (rule uppercase_entropy)
  have "ln (25 :: real) \<noteq> ln 24"
    by simp
  then have ne: "calculateEntropy (buildCharset (options lowercase8_state))
        (passwordLength lowercase8_state) \<noteq>
      calculateEntropy (buildCharset (options uppercase8_state)) (passwordLength uppercase8_state)"
    unfolding ol ou lowercase_pool uppercase_pool by (simp add: calculateEntropy_def str_def)
  have eq: "round (calculateEntropy (buildCharset (options lowercase8_state))
                (passwordLength lowercase8_state)) =
      round (calculateEntropy (buildCharset (options uppercase8_state))
                (passwordLength uppercase8_state))"
    using rl ru by simp
  note t = crack_time_from_rounded_entropy [OF gl gu pl pu eq, of initial_state]
  from t have "getCrackTimeEstimation l = getCrackTimeEstimation (initial_state\<lparr>entropy := 37\<rparr>)"
    unfolding rl by blast
  moreover from t have "getCrackTimeEstimation l = getCrackTimeEstimation u"
    by blast
  ultimately have "getCrackTimeEstimation l = ''7 seconds''"
    and "getCrackTimeEstimation u = ''7 seconds''"
    by (simp_all add: crack_time_37)
  with gl gu pl pu ne rl ru show ?thesis
    unfolding l_def [symmetric] u_def [symmetric] by simp
qed

end
